theory Spec2Isabelle
  imports Main
begin

section \<open>Values, documents and queries\<close>

text \<open>
  Errors that reach a caller as exceptions.  \<open>NotFound\<close> is the
  \<open>NotFoundException\<close> raised by the repository; \<open>ImmutableField\<close> is the
  store's refusal to change the identifier of a stored document; \<open>HashError\<close> is
  bcrypt's refusal to hash something that is not a string; \<open>ConfigMissing\<close> is
  \<open>ConfigService.getOrThrow\<close> on a key that is not configured; \<open>CastError\<close>
  is Mongoose's refusal of a value that has no cast to the type its schema path declares;
  \<open>InvalidSignature\<close> and \<open>Expired\<close> are the two failures of token verification.
\<close>

datatype error =
    NotFound | ImmutableField | HashError | ConfigMissing | CastError | InvalidSignature
  | Expired

text \<open>
  The values a field of a plain JavaScript object holds in this program: strings,
  numbers, object identifiers, and a promise that has not been awaited (carrying the
  outcome it will settle to).
\<close>

datatype val = Str string | Num int | Oid nat | Promise "error + val"

text \<open>
  A plain object (a document, an input DTO, the body of a \<open>$set\<close>) maps field names
  to values.  A filter is a conjunction of field-equality constraints; the empty filter
  matches every document.
\<close>

type_synonym document = "string \<rightharpoonup> val"

type_synonym filter_query = "(string \<times> val) list"

text \<open>
  An update is either written with top-level fields (which Mongoose applies as a
  \<open>$set\<close>) or with an explicit \<open>$set\<close>.
\<close>

datatype update_query = Fields document | Dollar_set document

fun update_fields :: "update_query \<Rightarrow> document" where
  "update_fields (Fields u) = u"
| "update_fields (Dollar_set u) = u"

section \<open>The document store\<close>

text \<open>
  Modelled from the spec: the Document Store Client (the Mongoose \<open>Model\<close> bound to
  one collection) is an external collaborator whose code is not part of the repository.
  Its primitives are modelled from section 6 of the specification: \<open>insertOne\<close> (through
  \<open>save\<close>), \<open>findOne\<close>, \<open>find\<close>, the atomic \<open>findOneAndUpdate\<close> with its
  "return post-image" option, the atomic \<open>findOneAndDelete\<close> returning the removed
  document, and identifiers that are unique values generated client-side at insert time.
  The collection is the list of its documents in insertion order; the identifier
  generator is a counter, so that every call of \<open>new ObjectId()\<close> yields a value never
  issued before.  Section 3 of the specification makes the identifier immutable: the
  store refuses an update that would change it.
\<close>

record store =
  docs :: "document list"
  next_oid :: nat

definition empty_store :: store where
  "empty_store = \<lparr>docs = [], next_oid = 0\<rparr>"

definition matches :: "filter_query \<Rightarrow> document \<Rightarrow> bool" where
  "matches f d = list_all (\<lambda>(k, v). d k = Some v) f"

definition new_ObjectId :: "store \<Rightarrow> nat \<times> store" where
  "new_ObjectId s = (next_oid s, s\<lparr>next_oid := Suc (next_oid s)\<rparr>)"

definition model_save :: "document \<Rightarrow> store \<Rightarrow> document \<times> store" where
  "model_save d s = (d, s\<lparr>docs := docs s @ [d]\<rparr>)"

definition model_findOne :: "filter_query \<Rightarrow> store \<Rightarrow> document option" where
  "model_findOne f s = List.find (matches f) (docs s)"

definition model_find :: "filter_query \<Rightarrow> store \<Rightarrow> document list" where
  "model_find f s = filter (matches f) (docs s)"

fun replace_first :: "('a \<Rightarrow> bool) \<Rightarrow> 'a \<Rightarrow> 'a list \<Rightarrow> 'a list" where
  "replace_first P y [] = []"
| "replace_first P y (x # xs) = (if P x then y # xs else x # replace_first P y xs)"

fun remove_first :: "('a \<Rightarrow> bool) \<Rightarrow> 'a list \<Rightarrow> 'a list" where
  "remove_first P [] = []"
| "remove_first P (x # xs) = (if P x then xs else x # remove_first P xs)"

definition changes_id :: "document \<Rightarrow> document \<Rightarrow> bool" where
  "changes_id u d = (case u ''_id'' of None \<Rightarrow> False | Some v \<Rightarrow> d ''_id'' \<noteq> Some v)"

text \<open>
  \<open>model_findOneAndUpdate f u new s\<close>: the first document matching \<open>f\<close> has the fields
  of \<open>u\<close> replaced (every other field is kept); the call returns the document after the
  update when the option \<open>new\<close> is set and the document before it otherwise, and
  \<open>None\<close> (JavaScript's \<open>null\<close>) when nothing matches.
\<close>

definition model_findOneAndUpdate ::
  "filter_query \<Rightarrow> update_query \<Rightarrow> bool \<Rightarrow> store \<Rightarrow> (error + document option) \<times> store" where
  "model_findOneAndUpdate f u new s =
     (case List.find (matches f) (docs s) of
        None \<Rightarrow> (Inr None, s)
      | Some d \<Rightarrow>
          if changes_id (update_fields u) d then (Inl ImmutableField, s)
          else (Inr (Some (if new then d ++ update_fields u else d)),
                s\<lparr>docs := replace_first (matches f) (d ++ update_fields u) (docs s)\<rparr>))"

definition model_findOneAndDelete ::
  "filter_query \<Rightarrow> store \<Rightarrow> document option \<times> store" where
  "model_findOneAndDelete f s =
     (case List.find (matches f) (docs s) of
        None \<Rightarrow> (None, s)
      | Some d \<Rightarrow> (Some d, s\<lparr>docs := remove_first (matches f) (docs s)\<rparr>))"

section \<open>AbstractRepository\<close>

text \<open>
  The five operations of \<open>abstract.repository.ts\<close>.  An operation that writes takes
  the store and returns it updated.  The warning logged before \<open>NotFoundException\<close> is
  a diagnostic and is not modelled; \<open>lean()\<close> and \<open>toJSON()\<close> return the plain data of
  a document, which is what a \<open>document\<close> is here.
\<close>

definition create :: "document \<Rightarrow> store \<Rightarrow> document \<times> store" where
  "create document s =
     (let (oid, s1) = new_ObjectId s;
          createdDocument = document(''_id'' \<mapsto> Oid oid)
      in model_save createdDocument s1)"

definition findOne :: "filter_query \<Rightarrow> store \<Rightarrow> error + document" where
  "findOne filterQuery s =
     (case model_findOne filterQuery s of
        None \<Rightarrow> Inl NotFound
      | Some document \<Rightarrow> Inr document)"

definition findOneAndUpdate ::
  "filter_query \<Rightarrow> update_query \<Rightarrow> store \<Rightarrow> (error + document) \<times> store" where
  "findOneAndUpdate filterQuery update s =
     (case model_findOneAndUpdate filterQuery update True s of
        (Inl e, s') \<Rightarrow> (Inl e, s')
      | (Inr None, s') \<Rightarrow> (Inl NotFound, s')
      | (Inr (Some document), s') \<Rightarrow> (Inr document, s'))"

definition find' :: "filter_query \<Rightarrow> store \<Rightarrow> document list" where
  "find' filterQuery s = model_find filterQuery s"

definition findOneAndDelete :: "filter_query \<Rightarrow> store \<Rightarrow> (error + document) \<times> store" where
  "findOneAndDelete filterQuery s =
     (case model_findOneAndDelete filterQuery s of
        (None, s') \<Rightarrow> (Inl NotFound, s')
      | (Some document, s') \<Rightarrow> (Inr document, s'))"

section \<open>Histories of repository calls\<close>

text \<open>
  A history is a sequence of calls on one repository.  \<open>run\<close> performs it and
  returns the entities that \<open>create\<close> returned, oldest first, with the final store.
\<close>

datatype op =
    Create document
  | FindOne filter_query
  | Find filter_query
  | FindOneAndUpdate filter_query update_query
  | FindOneAndDelete filter_query

fun run :: "op list \<Rightarrow> store \<Rightarrow> document list \<times> store" where
  "run [] s = ([], s)"
| "run (Create flds # ops) s =
     (let (e, s1) = create flds s; (es, s2) = run ops s1 in (e # es, s2))"
| "run (FindOne f # ops) s = run ops s"
| "run (Find f # ops) s = run ops s"
| "run (FindOneAndUpdate f u # ops) s = run ops (snd (findOneAndUpdate f u s))"
| "run (FindOneAndDelete f # ops) s = run ops (snd (findOneAndDelete f s))"

text \<open>
  The invariant of a store: stored documents carry pairwise distinct identifiers, each
  an object identifier that the generator has already issued.
\<close>

definition issued :: "nat \<Rightarrow> document \<Rightarrow> bool" where
  "issued n d = (case d ''_id'' of Some (Oid k) \<Rightarrow> k < n | _ \<Rightarrow> False)"

definition ids_ok :: "store \<Rightarrow> bool" where
  "ids_ok s = (distinct (map (\<lambda>d. d ''_id'') (docs s)) \<and> list_all (issued (next_oid s)) (docs s))"

section \<open>Object identifiers as text, and the schema of users\<close>

text \<open>
  \<open>toHexString\<close> writes the 12 bytes of an identifier as 24 lower-case hexadecimal
  digits; \<open>ofHexString\<close> reads such a string (in either case) back and accepts nothing
  else.
\<close>

definition hex_digit :: "nat \<Rightarrow> char" where
  "hex_digit d = ''0123456789abcdef'' ! (d mod 16)"

fun hex_digits :: "nat \<Rightarrow> nat \<Rightarrow> string" where
  "hex_digits 0 n = []"
| "hex_digits (Suc k) n = hex_digits k (n div 16) @ [hex_digit n]"

definition toHexString :: "nat \<Rightarrow> string" where
  "toHexString oid = hex_digits 24 oid"

fun index_of :: "'a \<Rightarrow> 'a list \<Rightarrow> nat option" where
  "index_of x [] = None"
| "index_of x (y # ys) = (if x = y then Some 0 else map_option Suc (index_of x ys))"

definition hex_value :: "char \<Rightarrow> nat option" where
  "hex_value c =
     (case index_of c ''0123456789abcdef'' of
        Some d \<Rightarrow> Some d
      | None \<Rightarrow> map_option (\<lambda>d. d + 10) (index_of c ''ABCDEF''))"

fun hex_number :: "nat \<Rightarrow> string \<Rightarrow> nat option" where
  "hex_number acc [] = Some acc"
| "hex_number acc (c # cs) =
     (case hex_value c of None \<Rightarrow> None | Some d \<Rightarrow> hex_number (16 * acc + d) cs)"

definition ofHexString :: "string \<Rightarrow> nat option" where
  "ofHexString s = (if length s = 24 then hex_number 0 s else None)"

text \<open>
  \<open>String(n)\<close> for a number: numbers are integers of a magnitude that JavaScript
  prints in plain decimal (below \<open>10^21\<close>).
\<close>

function number_digits :: "nat \<Rightarrow> string" where
  "number_digits n =
     (if n < 10 then [''0123456789'' ! n]
      else number_digits (n div 10) @ [''0123456789'' ! (n mod 10)])"
  by pat_completeness auto
termination
  by (relation "measure id") auto

declare number_digits.simps [simp del]

definition number_toString :: "int \<Rightarrow> string" where
  "number_toString n =
     (if n < 0 then CHR ''-'' # number_digits (nat (- n)) else number_digits (nat n))"

text \<open>
  The Mongoose model of a collection is bound to a schema and casts the filter and the
  update of a query to it before the store is asked.  \<open>user.entity.ts\<close> declares
  \<open>email\<close> and \<open>password\<close> as \<open>String\<close> paths.  A \<open>String\<close> path takes a
  string as it is and a number or an identifier through its \<open>toString()\<close>; an object
  whose \<open>toString\<close> is the default one, such as a promise, has no cast.  An
  \<open>ObjectId\<close> path takes an identifier as it is and the \<open>toString()\<close> of anything
  else when that is 24 hexadecimal digits.  In an update, a field that the schema does
  not declare is dropped (the schema is strict); in a filter it is left as it is.

  Modelled from the spec: \<open>abstract.entity.ts\<close>, which declares the path \<open>_id\<close>, is
  not among the source files; section 6 of the specification gives the identifier as a
  12-byte value written as 24 hexadecimal characters, so \<open>_id\<close> is an \<open>ObjectId\<close>
  path.
\<close>

datatype schema_type = SString | SObjectId

fun cast :: "schema_type \<Rightarrow> val \<Rightarrow> error + val" where
  "cast SString (Str s) = Inr (Str s)"
| "cast SString (Num n) = Inr (Str (number_toString n))"
| "cast SString (Oid k) = Inr (Str (toHexString k))"
| "cast SString (Promise p) = Inl CastError"
| "cast SObjectId (Oid k) = Inr (Oid k)"
| "cast SObjectId (Str s) =
     (case ofHexString s of None \<Rightarrow> Inl CastError | Some k \<Rightarrow> Inr (Oid k))"
| "cast SObjectId (Num n) =
     (case ofHexString (number_toString n) of None \<Rightarrow> Inl CastError | Some k \<Rightarrow> Inr (Oid k))"
| "cast SObjectId (Promise p) = Inl CastError"

type_synonym schema = "(string \<times> schema_type) list"

definition UserSchema :: schema where
  "UserSchema = [(''_id'', SObjectId), (''email'', SString), (''password'', SString)]"

fun cast_paths :: "schema \<Rightarrow> document \<Rightarrow> error + document" where
  "cast_paths [] u = Inr Map.empty"
| "cast_paths ((k, ty) # ps) u =
     (case cast_paths ps u of
        Inl e \<Rightarrow> Inl e
      | Inr m \<Rightarrow>
          (case u k of
             None \<Rightarrow> Inr m
           | Some v \<Rightarrow> (case cast ty v of Inl e \<Rightarrow> Inl e | Inr v' \<Rightarrow> Inr (m(k \<mapsto> v')))))"

definition cast_update :: "schema \<Rightarrow> update_query \<Rightarrow> error + update_query" where
  "cast_update sch u =
     (case cast_paths sch (update_fields u) of
        Inl e \<Rightarrow> Inl e
      | Inr m \<Rightarrow> Inr (Dollar_set m))"

fun cast_filter :: "schema \<Rightarrow> filter_query \<Rightarrow> error + filter_query" where
  "cast_filter sch [] = Inr []"
| "cast_filter sch ((k, v) # f) =
     (case (case map_of sch k of None \<Rightarrow> Inr v | Some ty \<Rightarrow> cast ty v) of
        Inl e \<Rightarrow> Inl e
      | Inr v' \<Rightarrow>
          (case cast_filter sch f of Inl e \<Rightarrow> Inl e | Inr f' \<Rightarrow> Inr ((k, v') # f')))"

text \<open>
  \<open>UserRepository\<close> is \<open>AbstractRepository\<close> over the model of users:
  its \<open>findOneAndUpdate\<close> is the repository's, on a filter and an update cast to
  \<open>UserSchema\<close>; a cast that fails is raised before the store is touched.
\<close>

definition UserRepository_findOneAndUpdate ::
  "filter_query \<Rightarrow> update_query \<Rightarrow> store \<Rightarrow> (error + document) \<times> store" where
  "UserRepository_findOneAndUpdate filterQuery update s =
     (case cast_filter UserSchema filterQuery of
        Inl e \<Rightarrow> (Inl e, s)
      | Inr f \<Rightarrow>
          (case cast_update UserSchema update of
             Inl e \<Rightarrow> (Inl e, s)
           | Inr u \<Rightarrow> findOneAndUpdate f u s))"

section \<open>UsersService\<close>

text \<open>
  \<open>bcrypt.hash\<close> is a capability of a library: it is a parameter \<open>bcrypt_hash\<close>
  giving the digest this call computes for a plaintext and a cost factor (the salt it
  draws is part of that choice).  It rejects data that is not a string.
  \<open>hashPassword\<close> is the awaited outcome of the private method of the service.
\<close>

definition hashPassword :: "(string \<Rightarrow> nat \<Rightarrow> string) \<Rightarrow> val option \<Rightarrow> error + val" where
  "hashPassword bcrypt_hash password =
     (case password of
        Some (Str p) \<Rightarrow> Inr (Str (bcrypt_hash p 10))
      | _ \<Rightarrow> Inl HashError)"

text \<open>JavaScript truthiness of a field that may be absent.\<close>

definition truthy :: "val option \<Rightarrow> bool" where
  "truthy v =
     (case v of
        None \<Rightarrow> False
      | Some (Str s) \<Rightarrow> s \<noteq> []
      | Some (Num n) \<Rightarrow> n \<noteq> 0
      | Some _ \<Rightarrow> True)"

definition UsersService_create ::
  "(string \<Rightarrow> nat \<Rightarrow> string) \<Rightarrow> document \<Rightarrow> store \<Rightarrow> (error + document) \<times> store" where
  "UsersService_create bcrypt_hash createUserInput s =
     (case hashPassword bcrypt_hash (createUserInput ''password'') of
        Inl e \<Rightarrow> (Inl e, s)
      | Inr h \<Rightarrow>
          (let (e, s') = create (createUserInput(''password'' \<mapsto> h)) s in (Inr e, s')))"

text \<open>
  \<open>update\<close> spreads the input into a \<open>$set\<close> and, when the input has a truthy
  password, overrides that field with the result of \<open>this.hashPassword(...)\<close>, which
  the source does not await: the field holds the promise.  The identifier is the string
  the service receives; the filter carries it as it is, and the model casts it.
\<close>

definition UsersService_update ::
  "(string \<Rightarrow> nat \<Rightarrow> string) \<Rightarrow> string \<Rightarrow> document \<Rightarrow> store
     \<Rightarrow> (error + document) \<times> store" where
  "UsersService_update bcrypt_hash uid updateUserInput s =
     UserRepository_findOneAndUpdate [(''_id'', Str uid)]
       (Dollar_set
          (updateUserInput ++
             (if truthy (updateUserInput ''password'')
              then [''password'' \<mapsto> Promise (hashPassword bcrypt_hash (updateUserInput ''password''))]
              else Map.empty)))
       s"

section \<open>Dates\<close>

text \<open>
  A \<open>Date\<close> is its time value, milliseconds since the epoch.  The time zone of the
  server gives an offset for every instant (\<open>utc_offset\<close>, ECMAScript's
  \<open>LocalTZA(t, true)\<close>) and for every local time value (\<open>local_offset\<close>,
  \<open>LocalTZA(t, false)\<close>); the two agree except around a change of offset.
  \<open>getSeconds\<close> and \<open>setSeconds\<close> follow ECMAScript: they work on the local time
  of the date, and \<open>setSeconds\<close> rebuilds a local time value from the day, hour, minute
  and millisecond of the old one and the new seconds, which may lie outside \<open>0..59\<close>,
  and converts it back with the offset that holds at that local time.  Time values stay
  within the range of \<open>Date\<close>, so that \<open>TimeClip\<close> is the identity, and the seconds
  are integral.
\<close>

record zone =
  utc_offset :: "int \<Rightarrow> int"
  local_offset :: "int \<Rightarrow> int"

definition LocalTime :: "zone \<Rightarrow> int \<Rightarrow> int" where
  "LocalTime z t = t + utc_offset z t"

definition UTC :: "zone \<Rightarrow> int \<Rightarrow> int" where
  "UTC z t = t - local_offset z t"

definition MakeTime :: "int \<Rightarrow> int \<Rightarrow> int \<Rightarrow> int \<Rightarrow> int" where
  "MakeTime hour minute sec ms = hour * 3600000 + minute * 60000 + sec * 1000 + ms"

definition MakeDate :: "int \<Rightarrow> int \<Rightarrow> int" where
  "MakeDate day time = day * 86400000 + time"

definition getSeconds :: "zone \<Rightarrow> int \<Rightarrow> int" where
  "getSeconds z t = (LocalTime z t div 1000) mod 60"

definition setSeconds :: "zone \<Rightarrow> int \<Rightarrow> int \<Rightarrow> int" where
  "setSeconds z sec t =
     (let lt = LocalTime z t;
          day = lt div 86400000;
          hour = (lt div 3600000) mod 24;
          minute = (lt div 60000) mod 60;
          milli = lt mod 1000
      in UTC z (MakeDate day (MakeTime hour minute sec milli)))"

text \<open>
  Two zones: UTC, and the Eastern zone of the United States around the end of daylight
  saving time on 1 November 2026, when at 06:00 UTC the local clocks go from 02:00 back
  to 01:00 and the offset from four to five hours behind UTC.  A local time that occurs
  twice is taken as its first occurrence.
\<close>

definition utc_zone :: zone where
  "utc_zone = \<lparr>utc_offset = (\<lambda>t. 0), local_offset = (\<lambda>t. 0)\<rparr>"


section \<open>AuthService\<close>

text \<open>A user entity; \<open>user_id\<close> is its \<open>_id\<close>, an object identifier.\<close>

record user =
  user_id :: nat
  email :: string
  password :: string

text \<open>
  The response collects the cookies set on it, in order.  The type \<open>'v\<close> of a cookie's
  value is that of the tokens the signer produces; \<open>logout\<close> writes the empty string.
\<close>

record 'v cookie =
  cookie_name :: string
  cookie_value :: 'v
  httpOnly :: bool
  expires :: int

definition response_cookie :: "'v cookie \<Rightarrow> 'v cookie list \<Rightarrow> 'v cookie list" where
  "response_cookie c response = response @ [c]"

datatype json = JBool bool | JStr string | JObj "(string \<times> json) list"

fun json_fields :: "json \<Rightarrow> string list" where
  "json_fields (JBool b) = []"
| "json_fields (JStr s) = []"
| "json_fields (JObj kvs) = concat (map (\<lambda>(k, v). k # json_fields v) kvs)"

type_synonym token_payload = "(string \<times> string) list"

definition getOrThrow :: "(string \<rightharpoonup> int) \<Rightarrow> string \<Rightarrow> error + int" where
  "getOrThrow configService key =
     (case configService key of None \<Rightarrow> Inl ConfigMissing | Some v \<Rightarrow> Inr v)"

text \<open>
  \<open>login\<close>: \<open>now\<close> is the time of the call, the time value of \<open>new Date()\<close>;
  \<open>sign\<close> is \<open>JwtService.sign\<close>, which reads the clock itself and is therefore
  given the time of the call with the payload; \<open>z\<close> is the time zone of the server.
  It returns the response body and the response with the cookie set.
\<close>

definition login ::
  "(int \<Rightarrow> token_payload \<Rightarrow> 'v) \<Rightarrow> (string \<rightharpoonup> int) \<Rightarrow> zone \<Rightarrow> int \<Rightarrow> user
     \<Rightarrow> 'v cookie list \<Rightarrow> error + (json \<times> 'v cookie list)" where
  "login sign configService z now user response =
     (case getOrThrow configService ''JWT_EXPIRATION'' of
        Inl e \<Rightarrow> Inl e
      | Inr n \<Rightarrow>
          (let expires = setSeconds z (getSeconds z now + n) now;
               tokenPayload = [(''_id'', toHexString (user_id user)), (''email'', email user)];
               token = sign now tokenPayload
           in Inr (JObj [(''success'', JBool True),
                         (''user'', JObj [(''_id'', JStr (toHexString (user_id user))),
                                          (''email'', JStr (email user))])],
                   response_cookie
                     \<lparr>cookie_name = ''Authentication'', cookie_value = token,
                      httpOnly = True, expires = expires\<rparr> response)))"

text \<open>A signer for examples: the token is the signed values written one after the other.\<close>

definition plain_sign :: "int \<Rightarrow> token_payload \<Rightarrow> string" where
  "plain_sign t p = concat (map snd p)"

definition logout :: "int \<Rightarrow> string cookie list \<Rightarrow> string cookie list" where
  "logout now response =
     response_cookie
       \<lparr>cookie_name = ''Authentication'', cookie_value = [], httpOnly = True, expires = now\<rparr>
       response"

text \<open>
  A request is handled against the state of the process: the document store and the
  response under construction.  \<open>AuthController.logout\<close> hands only the response to
  the service.
\<close>

record world =
  db :: store
  res :: "string cookie list"

definition AuthController_logout :: "int \<Rightarrow> world \<Rightarrow> world" where
  "AuthController_logout now w = w\<lparr>res := logout now (res w)\<rparr>"

section \<open>Session tokens\<close>

text \<open>
  Modelled from the spec: the configuration of the signer (\<open>auth.module.ts\<close>) and the
  verification of a token (the JWT strategy) are not among the source files.  Sections 3
  and 4.3 of the specification describe them: a token is a signed payload with
  \<open>issuedAt = now\<close> and \<open>expiresAt = now + expirationSeconds\<close>, valid until
  \<open>expiresAt\<close>; \<open>verify\<close> fails with \<open>InvalidSignature\<close> or \<open>Expired\<close> and
  compares the time of verification with the embedded \<open>expiresAt\<close>.  Times are in
  milliseconds; \<open>mac\<close> is the keyed signature function.
\<close>

record session_token =
  payload :: token_payload
  issuedAt :: int
  expiresAt :: int
  signature :: string

definition jwt_sign ::
  "(string \<Rightarrow> token_payload \<times> int \<times> int \<Rightarrow> string) \<Rightarrow> string \<Rightarrow> int \<Rightarrow> int
     \<Rightarrow> token_payload \<Rightarrow> session_token" where
  "jwt_sign mac secret expirationSeconds now p =
     \<lparr>payload = p, issuedAt = now, expiresAt = now + 1000 * expirationSeconds,
      signature = mac secret (p, now, now + 1000 * expirationSeconds)\<rparr>"

definition jwt_verify ::
  "(string \<Rightarrow> token_payload \<times> int \<times> int \<Rightarrow> string) \<Rightarrow> string \<Rightarrow> int
     \<Rightarrow> session_token \<Rightarrow> error + token_payload" where
  "jwt_verify mac secret t tok =
     (if signature tok \<noteq> mac secret (payload tok, issuedAt tok, expiresAt tok)
      then Inl InvalidSignature
      else if expiresAt tok \<le> t then Inl Expired
      else Inr (payload tok))"

text \<open>A signature function for examples: the secret followed by the signed values.\<close>

definition plain_mac :: "string \<Rightarrow> token_payload \<times> int \<times> int \<Rightarrow> string" where
  "plain_mac secret p = secret @ concat (map snd (fst p))"

section \<open>Lookup misses\<close>

lemma find_no_match: "\<forall>d \<in> set xs. \<not> P d \<Longrightarrow> List.find P xs = None"
  by (induction xs) auto

text \<open>
  C4.  When no stored document matches the filter, \<open>findOne\<close> fails with
  \<open>NotFound\<close> (it returns no entity at all, so no default or empty one), while
  \<open>find\<close> on the same store returns the empty sequence, which is a value and not a
  failure.
\<close>

theorem findOne_NotFound_find_empty:
  assumes "\<forall>d \<in> set (docs s). \<not> matches f d"
  shows "findOne f s = Inl NotFound \<and> find' f s = []"
proof -
  have "model_findOne f s = None"
    using assms by (simp add: model_findOne_def find_no_match)
  moreover have "model_find f s = []"
    using assms by (simp add: model_find_def)
  ultimately show ?thesis
    by (simp add: findOne_def find'_def)
qed

theorem findOne_NotFound_find_empty_witness:
  "findOne [(''email'', Str ''b@x'')]
      \<lparr>docs = [[''_id'' \<mapsto> Oid 0, ''email'' \<mapsto> Str ''a@x'']], next_oid = 1\<rparr> = Inl NotFound
   \<and> find' [(''email'', Str ''b@x'')]
      \<lparr>docs = [[''_id'' \<mapsto> Oid 0, ''email'' \<mapsto> Str ''a@x'']], next_oid = 1\<rparr> = []"
  using findOne_NotFound_find_empty
    [of "\<lparr>docs = [[''_id'' \<mapsto> Oid 0, ''email'' \<mapsto> Str ''a@x'']], next_oid = 1\<rparr>"
        "[(''email'', Str ''b@x'')]"]
  by (simp add: matches_def)

section \<open>Identifiers, updates and deletions\<close>

lemma create_eq:
  "create flds s =
     (flds(''_id'' \<mapsto> Oid (next_oid s)),
      s\<lparr>next_oid := Suc (next_oid s), docs := docs s @ [flds(''_id'' \<mapsto> Oid (next_oid s))]\<rparr>)"
  by (simp add: create_def new_ObjectId_def model_save_def Let_def)

lemma issued_mono: "issued n d \<Longrightarrow> n \<le> m \<Longrightarrow> issued m d"
  by (auto simp: issued_def split: option.splits val.splits)

lemma issued_id_neq: "issued n d \<Longrightarrow> d ''_id'' \<noteq> Some (Oid n)"
  by (auto simp: issued_def)

lemma issued_new: "issued (Suc n) (flds(''_id'' \<mapsto> Oid n))"
  by (simp add: issued_def)

lemma ids_ok_create:
  assumes "ids_ok s"
  shows "ids_ok (snd (create flds s))"
proof -
  let ?e = "flds(''_id'' \<mapsto> Oid (next_oid s))"
  from assms have d: "distinct (map (\<lambda>d. d ''_id'') (docs s))"
    and a: "\<forall>d \<in> set (docs s). issued (next_oid s) d"
    by (simp_all add: ids_ok_def list_all_iff)
  from a have "\<forall>d \<in> set (docs s). d ''_id'' \<noteq> Some (Oid (next_oid s))"
    by (blast dest: issued_id_neq)
  then have "Some (Oid (next_oid s)) \<notin> (\<lambda>d. d ''_id'') ` set (docs s)"
    by auto
  with d have "distinct (map (\<lambda>d. d ''_id'') (docs s @ [?e]))"
    by simp
  moreover from a have "\<forall>d \<in> set (docs s @ [?e]). issued (Suc (next_oid s)) d"
    by (auto intro: issued_mono issued_new)
  ultimately show ?thesis
    by (simp add: create_eq ids_ok_def list_all_iff)
qed

lemma find_Some_replace:
  "List.find P xs = Some d \<Longrightarrow>
     \<exists>i<length xs. xs ! i = d \<and> replace_first P y xs = xs[i := y]
        \<and> remove_first P xs = take i xs @ drop (Suc i) xs"
proof (induction xs)
  case Nil
  then show ?case by simp
next
  case (Cons x xs)
  show ?case
  proof (cases "P x")
    case True
    with Cons.prems have "x = d" by simp
    with True show ?thesis by (intro exI[of _ 0]) simp
  next
    case False
    with Cons.prems have "List.find P xs = Some d" by simp
    from Cons.IH[OF this] obtain i where
      "i < length xs" "xs ! i = d" "replace_first P y xs = xs[i := y]"
      "remove_first P xs = take i xs @ drop (Suc i) xs" by blast
    with False show ?thesis by (intro exI[of _ "Suc i"]) simp
  qed
qed

lemma find_Some_in: "List.find P xs = Some d \<Longrightarrow> d \<in> set xs \<and> P d"
  by (induction xs) (auto split: if_splits)

lemma matches_id [simp]: "matches [(k, v)] d \<longleftrightarrow> d k = Some v"
  by (simp add: matches_def)

lemma findOneAndUpdate_eq:
  "findOneAndUpdate f u s =
     (case model_findOne f s of
        None \<Rightarrow> (Inl NotFound, s)
      | Some d \<Rightarrow>
          if changes_id (update_fields u) d then (Inl ImmutableField, s)
          else (Inr (d ++ update_fields u),
                s\<lparr>docs := replace_first (matches f) (d ++ update_fields u) (docs s)\<rparr>))"
  by (simp add: findOneAndUpdate_def model_findOneAndUpdate_def model_findOne_def
      split: option.splits)

lemma findOneAndDelete_eq:
  "findOneAndDelete f s =
     (case model_findOne f s of
        None \<Rightarrow> (Inl NotFound, s)
      | Some d \<Rightarrow> (Inr d, s\<lparr>docs := remove_first (matches f) (docs s)\<rparr>))"
  by (simp add: findOneAndDelete_def model_findOneAndDelete_def model_findOne_def
      split: option.splits)

lemma keeps_id: "\<not> changes_id u d \<Longrightarrow> (d ++ u) ''_id'' = d ''_id''"
  by (auto simp: changes_id_def map_add_def split: option.splits)

lemma ids_ok_replace:
  assumes ok: "ids_ok s" and i: "i < length (docs s)"
    and same: "d' ''_id'' = (docs s ! i) ''_id''"
  shows "ids_ok (s\<lparr>docs := (docs s)[i := d']\<rparr>)"
proof -
  let ?g = "\<lambda>d::document. d ''_id''"
  have "map ?g ((docs s)[i := d']) = (map ?g (docs s))[i := ?g (docs s ! i)]"
    by (simp add: map_update same)
  also have "\<dots> = map ?g (docs s)"
    using i by (simp add: list_update_same_conv)
  finally have m: "map ?g ((docs s)[i := d']) = map ?g (docs s)" .
  from ok i have "issued (next_oid s) (docs s ! i)"
    by (simp add: ids_ok_def list_all_length)
  then have "issued (next_oid s) d'"
    using same by (simp add: issued_def)
  moreover from ok have "\<forall>d \<in> set (docs s). issued (next_oid s) d"
    by (simp add: ids_ok_def list_all_iff)
  ultimately have "\<forall>d \<in> set ((docs s)[i := d']). issued (next_oid s) d"
    using set_update_subset_insert[of "docs s" i d'] by auto
  with ok m show ?thesis
    by (simp add: ids_ok_def list_all_iff)
qed

lemma distinct_remove_nth: "distinct ys \<Longrightarrow> distinct (take i ys @ drop (Suc i) ys)"
  by (simp add: set_take_disj_set_drop_if_distinct)

lemma ids_ok_remove:
  assumes ok: "ids_ok s"
  shows "ids_ok (s\<lparr>docs := take i (docs s) @ drop (Suc i) (docs s)\<rparr>)"
proof -
  let ?g = "\<lambda>d::document. d ''_id''"
  from ok have "distinct (map ?g (docs s))"
    by (simp add: ids_ok_def)
  then have "distinct (take i (map ?g (docs s)) @ drop (Suc i) (map ?g (docs s)))"
    by (rule distinct_remove_nth)
  then have "distinct (map ?g (take i (docs s) @ drop (Suc i) (docs s)))"
    by (simp add: take_map drop_map)
  moreover from ok have "\<forall>d \<in> set (docs s). issued (next_oid s) d"
    by (simp add: ids_ok_def list_all_iff)
  then have "\<forall>d \<in> set (take i (docs s) @ drop (Suc i) (docs s)). issued (next_oid s) d"
    by (auto dest: in_set_takeD in_set_dropD)
  ultimately show ?thesis
    by (simp add: ids_ok_def list_all_iff)
qed

lemma findOne_eq: "findOne f s = (case List.find (matches f) (docs s) of None \<Rightarrow> Inl NotFound | Some d \<Rightarrow> Inr d)"
  by (simp add: findOne_def model_findOne_def)

lemma findOne_Inr: "findOne f s = Inr d \<longleftrightarrow> List.find (matches f) (docs s) = Some d"
  by (simp add: findOne_eq split: option.splits)

lemma ids_ok_findOneAndUpdate:
  assumes "ids_ok s"
  shows "ids_ok (snd (findOneAndUpdate f u s))"
proof (cases "List.find (matches f) (docs s)")
  case None
  with assms show ?thesis
    by (simp add: findOneAndUpdate_eq model_findOne_def)
next
  case (Some d)
  show ?thesis
  proof (cases "changes_id (update_fields u) d")
    case True
    with Some assms show ?thesis
      by (simp add: findOneAndUpdate_eq model_findOne_def)
  next
    case False
    let ?d' = "d ++ update_fields u"
    from find_Some_replace[OF Some, of ?d'] obtain i where
      i: "i < length (docs s)" "docs s ! i = d"
      and r: "replace_first (matches f) ?d' (docs s) = (docs s)[i := ?d']"
      by blast
    from keeps_id[OF False] i have "?d' ''_id'' = (docs s ! i) ''_id''"
      by simp
    then have "ids_ok (s\<lparr>docs := (docs s)[i := ?d']\<rparr>)"
      using assms i(1) by (intro ids_ok_replace)
    with Some False r show ?thesis
      by (simp add: findOneAndUpdate_eq model_findOne_def)
  qed
qed

lemma ids_ok_findOneAndDelete:
  assumes "ids_ok s"
  shows "ids_ok (snd (findOneAndDelete f s))"
proof (cases "List.find (matches f) (docs s)")
  case None
  with assms show ?thesis
    by (simp add: findOneAndDelete_eq model_findOne_def)
next
  case (Some d)
  from find_Some_replace[OF Some] obtain i where
    "remove_first (matches f) (docs s) = take i (docs s) @ drop (Suc i) (docs s)"
    by blast
  with ids_ok_remove[OF assms, of i] Some show ?thesis
    by (simp add: findOneAndDelete_eq model_findOne_def)
qed

lemma next_oid_findOneAndUpdate: "next_oid (snd (findOneAndUpdate f u s)) = next_oid s"
  by (simp add: findOneAndUpdate_eq split: option.splits)

lemma next_oid_findOneAndDelete: "next_oid (snd (findOneAndDelete f s)) = next_oid s"
  by (simp add: findOneAndDelete_eq split: option.splits)

lemma run_Create:
  "run (Create flds # ops) s0 =
     (fst (create flds s0) # fst (run ops (snd (create flds s0))),
      snd (run ops (snd (create flds s0))))"
  by (simp add: split_beta)

lemma run_ids_ok: "ids_ok s0 \<Longrightarrow> run ops s0 = (created, s) \<Longrightarrow> ids_ok s"
proof (induction ops arbitrary: s0 created)
  case Nil
  then show ?case by simp
next
  case (Cons x ops)
  show ?case
  proof (cases x)
    case (Create flds)
    have "ids_ok (snd (create flds s0))"
      using Cons.prems(1) by (rule ids_ok_create)
    moreover have "run ops (snd (create flds s0)) = (fst (run ops (snd (create flds s0))), s)"
      using Cons.prems(2) unfolding Create run_Create by (auto simp: prod_eq_iff)
    ultimately show ?thesis by (rule Cons.IH)
  next
    case (FindOne f)
    with Cons show ?thesis by simp
  next
    case (Find f)
    with Cons show ?thesis by simp
  next
    case (FindOneAndUpdate f u)
    have "ids_ok (snd (findOneAndUpdate f u s0))"
      using Cons.prems(1) by (rule ids_ok_findOneAndUpdate)
    moreover have "run ops (snd (findOneAndUpdate f u s0)) = (created, s)"
      using Cons.prems(2) FindOneAndUpdate by simp
    ultimately show ?thesis by (rule Cons.IH)
  next
    case (FindOneAndDelete f)
    have "ids_ok (snd (findOneAndDelete f s0))"
      using Cons.prems(1) by (rule ids_ok_findOneAndDelete)
    moreover have "run ops (snd (findOneAndDelete f s0)) = (created, s)"
      using Cons.prems(2) FindOneAndDelete by simp
    ultimately show ?thesis by (rule Cons.IH)
  qed
qed

lemma run_created:
  "run ops s0 = (created, s) \<Longrightarrow>
     next_oid s0 \<le> next_oid s \<and>
     (\<forall>p \<in> set created. \<exists>k. p ''_id'' = Some (Oid k) \<and> next_oid s0 \<le> k \<and> k < next_oid s)"
proof (induction ops arbitrary: s0 created)
  case Nil
  then show ?case by simp
next
  case (Cons x ops)
  show ?case
  proof (cases x)
    case (Create flds)
    let ?s1 = "snd (create flds s0)"
    let ?es = "fst (run ops ?s1)"
    have r: "run ops ?s1 = (?es, s)" and c: "created = fst (create flds s0) # ?es"
      using Cons.prems unfolding Create run_Create by (auto simp: prod_eq_iff)
    have n: "next_oid ?s1 = Suc (next_oid s0)"
      by (simp add: create_eq)
    from Cons.IH[OF r]
    have ih: "next_oid ?s1 \<le> next_oid s"
      "\<forall>p \<in> set ?es. \<exists>k. p ''_id'' = Some (Oid k) \<and> next_oid ?s1 \<le> k \<and> k < next_oid s"
      by simp_all
    have "fst (create flds s0) ''_id'' = Some (Oid (next_oid s0))"
      by (simp add: create_eq)
    with ih n have "\<forall>p \<in> set (fst (create flds s0) # ?es).
        \<exists>k. p ''_id'' = Some (Oid k) \<and> next_oid s0 \<le> k \<and> k < next_oid s"
      by (auto intro: Suc_leD Suc_le_lessD)
    with ih(1) n c show ?thesis by simp
  next
    case (FindOne f)
    with Cons show ?thesis by simp
  next
    case (Find f)
    with Cons show ?thesis by simp
  next
    case (FindOneAndUpdate f u)
    have "run ops (snd (findOneAndUpdate f u s0)) = (created, s)"
      using Cons.prems FindOneAndUpdate by simp
    from Cons.IH[OF this] show ?thesis
      by (simp add: next_oid_findOneAndUpdate)
  next
    case (FindOneAndDelete f)
    have "run ops (snd (findOneAndDelete f s0)) = (created, s)"
      using Cons.prems FindOneAndDelete by simp
    from Cons.IH[OF this] show ?thesis
      by (simp add: next_oid_findOneAndDelete)
  qed
qed

lemma find_id_after_replace:
  assumes dist: "distinct (map (\<lambda>d::document. d ''_id'') xs)" and i: "i < length xs"
    and new: "d' ''_id'' = Some v" and old: "(xs ! i) ''_id'' = Some v"
  shows "List.find (matches [(''_id'', v)]) (xs[i := d']) = Some d'"
proof -
  have "\<not> matches [(''_id'', v)] (xs[i := d'] ! j)" if j: "j < i" for j
  proof -
    have "(map (\<lambda>d::document. d ''_id'') xs ! j = map (\<lambda>d::document. d ''_id'') xs ! i) = (j = i)"
      using dist j i by (intro nth_eq_iff_index_eq) simp_all
    with j i have "(xs ! j) ''_id'' \<noteq> (xs ! i) ''_id''"
      by simp
    with j i old show ?thesis by simp
  qed
  with i new show ?thesis
    unfolding find_Some_iff by (intro exI[of _ i]) simp
qed

lemma find_id_after_remove:
  assumes dist: "distinct (map (\<lambda>d::document. d ''_id'') xs)" and i: "i < length xs"
    and old: "(xs ! i) ''_id'' = Some v"
  shows "List.find (matches [(''_id'', v)]) (take i xs @ drop (Suc i) xs) = None"
proof -
  let ?g = "\<lambda>d::document. d ''_id''"
  from i have "xs = take i xs @ xs ! i # drop (Suc i) xs"
    by (rule id_take_nth_drop)
  then have "map ?g xs = map ?g (take i xs @ xs ! i # drop (Suc i) xs)"
    by simp
  with dist have "distinct (map ?g (take i xs) @ ?g (xs ! i) # map ?g (drop (Suc i) xs))"
    by simp
  then have "\<forall>d \<in> set (take i xs) \<union> set (drop (Suc i) xs). d ''_id'' \<noteq> (xs ! i) ''_id''"
    by (auto simp: image_iff)
  with old have "\<forall>d \<in> set (take i xs @ drop (Suc i) xs). \<not> matches [(''_id'', v)] d"
    by auto
  then show ?thesis
    by (auto simp: find_None_iff)
qed

lemma ids_ok_has_id:
  assumes "ids_ok s" and "d \<in> set (docs s)"
  shows "\<exists>k. d ''_id'' = Some (Oid k) \<and> k < next_oid s"
proof -
  from assms have "issued (next_oid s) d"
    by (simp add: ids_ok_def list_all_iff)
  then show ?thesis
    by (auto simp: issued_def split: option.splits val.splits)
qed

text \<open>
  C1.  Let \<open>s\<close> be the store after any history of repository calls that started in a
  store satisfying the invariant, and \<open>created\<close> the entities that history created.
  \<open>create flds\<close> then returns the entity \<open>e\<close> made of \<open>flds\<close> and a newly generated
  identifier, appends exactly \<open>e\<close> to the collection, agrees with \<open>flds\<close> on every
  field other than \<open>_id\<close>, and its identifier differs from the identifier of every
  entity created before (deleted or not) and of every stored document.
\<close>

theorem create_fresh_entity:
  assumes "ids_ok s0" and "run ops s0 = (created, s)" and "create flds s = (e, s')"
  shows "e = flds(''_id'' \<mapsto> Oid (next_oid s)) \<and> docs s' = docs s @ [e]
       \<and> (\<forall>k. k \<noteq> ''_id'' \<longrightarrow> e k = flds k)
       \<and> (\<forall>p \<in> set created. p ''_id'' \<noteq> e ''_id'')
       \<and> (\<forall>d \<in> set (docs s). d ''_id'' \<noteq> e ''_id'')"
proof -
  from assms(3) have e: "e = flds(''_id'' \<mapsto> Oid (next_oid s))"
    and s': "docs s' = docs s @ [e]"
    by (auto simp: create_eq)
  from e have id: "e ''_id'' = Some (Oid (next_oid s))"
    by simp
  from run_created[OF assms(2)] id have old: "\<forall>p \<in> set created. p ''_id'' \<noteq> e ''_id''"
    by fastforce
  from run_ids_ok[OF assms(1,2)] have "ids_ok s" .
  from ids_ok_has_id[OF this] id have stored: "\<forall>d \<in> set (docs s). d ''_id'' \<noteq> e ''_id''"
    by fastforce
  from e have "\<forall>k. k \<noteq> ''_id'' \<longrightarrow> e k = flds k"
    by simp
  with e s' old stored show ?thesis
    by blast
qed

theorem create_fresh_entity_witness:
  "ids_ok empty_store
   \<and> run [Create [''email'' \<mapsto> Str ''a@x''], FindOneAndDelete [(''email'', Str ''a@x'')]] empty_store
       = ([[''email'' \<mapsto> Str ''a@x'', ''_id'' \<mapsto> Oid 0]], \<lparr>docs = [], next_oid = 1\<rparr>)
   \<and> create [''email'' \<mapsto> Str ''b@x''] \<lparr>docs = [], next_oid = 1\<rparr>
       = ([''email'' \<mapsto> Str ''b@x'', ''_id'' \<mapsto> Oid 1],
          \<lparr>docs = [[''email'' \<mapsto> Str ''b@x'', ''_id'' \<mapsto> Oid 1]], next_oid = 2\<rparr>)
   \<and> [''email'' \<mapsto> Str ''a@x'', ''_id'' \<mapsto> Oid 0] ''_id''
       \<noteq> [''email'' \<mapsto> Str ''b@x'', ''_id'' \<mapsto> Oid 1] ''_id''"
proof -
  have h1: "ids_ok empty_store"
    by (simp add: ids_ok_def empty_store_def)
  have h2: "run [Create [''email'' \<mapsto> Str ''a@x''], FindOneAndDelete [(''email'', Str ''a@x'')]] empty_store
       = ([[''email'' \<mapsto> Str ''a@x'', ''_id'' \<mapsto> Oid 0]], \<lparr>docs = [], next_oid = 1\<rparr>)"
    by (simp add: empty_store_def create_def new_ObjectId_def model_save_def Let_def
        findOneAndDelete_def model_findOneAndDelete_def matches_def)
  have h3: "create [''email'' \<mapsto> Str ''b@x''] \<lparr>docs = [], next_oid = 1\<rparr>
       = ([''email'' \<mapsto> Str ''b@x'', ''_id'' \<mapsto> Oid 1],
          \<lparr>docs = [[''email'' \<mapsto> Str ''b@x'', ''_id'' \<mapsto> Oid 1]], next_oid = 2\<rparr>)"
    by (simp add: create_def new_ObjectId_def model_save_def Let_def)
  from create_fresh_entity[OF h1 h2 h3] h1 h2 h3 show ?thesis
    by simp
qed

text \<open>
  C2.  \<open>findOneAndUpdate\<close> fails with \<open>NotFound\<close>, leaving the store as it was,
  when no document matches.  When \<open>d\<close> is the first match and the update leaves its
  identifier alone, the call returns \<open>d\<close> with the fields of the update replaced, that
  is the state after the update, in which every field of the update has its new value;
  and \<open>findOne\<close> on the identifier of \<open>d\<close> in the resulting store returns that same
  value.  (The store refuses an update that would change the identifier.)
\<close>

theorem findOneAndUpdate_post_update:
  assumes "ids_ok s" and "findOneAndUpdate f u s = (r, s')"
  shows "((\<forall>d \<in> set (docs s). \<not> matches f d) \<longrightarrow> r = Inl NotFound \<and> s' = s)
       \<and> (\<forall>d. findOne f s = Inr d \<longrightarrow>
            (if changes_id (update_fields u) d then r = Inl ImmutableField \<and> s' = s
             else r = Inr (d ++ update_fields u)
                  \<and> (\<forall>k v. update_fields u k = Some v \<longrightarrow> (d ++ update_fields u) k = Some v)
                  \<and> (\<exists>i. d ''_id'' = Some i \<and> findOne [(''_id'', i)] s' = r)))"
proof (rule conjI)
  show "(\<forall>d \<in> set (docs s). \<not> matches f d) \<longrightarrow> r = Inl NotFound \<and> s' = s"
  proof
    assume "\<forall>d \<in> set (docs s). \<not> matches f d"
    then have "List.find (matches f) (docs s) = None"
      by (rule find_no_match)
    with assms(2) show "r = Inl NotFound \<and> s' = s"
      by (auto simp: findOneAndUpdate_eq model_findOne_def)
  qed
next
  show "\<forall>d. findOne f s = Inr d \<longrightarrow>
            (if changes_id (update_fields u) d then r = Inl ImmutableField \<and> s' = s
             else r = Inr (d ++ update_fields u)
                  \<and> (\<forall>k v. update_fields u k = Some v \<longrightarrow> (d ++ update_fields u) k = Some v)
                  \<and> (\<exists>i. d ''_id'' = Some i \<and> findOne [(''_id'', i)] s' = r))"
  proof (intro allI impI)
    fix d
    assume "findOne f s = Inr d"
    then have fd: "List.find (matches f) (docs s) = Some d"
      by (simp add: findOne_Inr)
    let ?d' = "d ++ update_fields u"
    show "if changes_id (update_fields u) d then r = Inl ImmutableField \<and> s' = s
          else r = Inr ?d'
               \<and> (\<forall>k v. update_fields u k = Some v \<longrightarrow> ?d' k = Some v)
               \<and> (\<exists>i. d ''_id'' = Some i \<and> findOne [(''_id'', i)] s' = r)"
    proof (cases "changes_id (update_fields u) d")
      case True
      with assms(2) fd show ?thesis
        by (simp add: findOneAndUpdate_eq model_findOne_def)
    next
      case False
      from find_Some_replace[OF fd, of ?d'] obtain i where
        i: "i < length (docs s)" "docs s ! i = d"
        and rep: "replace_first (matches f) ?d' (docs s) = (docs s)[i := ?d']"
        by blast
      from assms(2) fd False rep have r: "r = Inr ?d'" and s': "docs s' = (docs s)[i := ?d']"
        by (auto simp: findOneAndUpdate_eq model_findOne_def)
      from i have "d \<in> set (docs s)"
        by auto
      from ids_ok_has_id[OF assms(1) this] obtain k where k: "d ''_id'' = Some (Oid k)"
        by blast
      with keeps_id[OF False] have k': "?d' ''_id'' = Some (Oid k)"
        by simp
      from assms(1) have "distinct (map (\<lambda>d. d ''_id'') (docs s))"
        by (simp add: ids_ok_def)
      then have "List.find (matches [(''_id'', Oid k)]) ((docs s)[i := ?d']) = Some ?d'"
        using i k k' by (intro find_id_after_replace) simp_all
      with s' r have "findOne [(''_id'', Oid k)] s' = r"
        by (simp add: findOne_eq)
      with k have "\<exists>i. d ''_id'' = Some i \<and> findOne [(''_id'', i)] s' = r"
        by blast
      moreover have "\<forall>k v. update_fields u k = Some v \<longrightarrow> ?d' k = Some v"
        by (simp add: map_add_Some_iff)
      ultimately show ?thesis
        using False r by simp
    qed
  qed
qed

theorem findOneAndUpdate_post_update_witness:
  "ids_ok \<lparr>docs = [[''_id'' \<mapsto> Oid 0, ''email'' \<mapsto> Str ''a@x''],
                    [''_id'' \<mapsto> Oid 1, ''email'' \<mapsto> Str ''b@x'']], next_oid = 2\<rparr>
   \<and> findOneAndUpdate [(''email'', Str ''b@x'')] (Fields [''email'' \<mapsto> Str ''c@x''])
        \<lparr>docs = [[''_id'' \<mapsto> Oid 0, ''email'' \<mapsto> Str ''a@x''],
                 [''_id'' \<mapsto> Oid 1, ''email'' \<mapsto> Str ''b@x'']], next_oid = 2\<rparr>
       = (Inr [''_id'' \<mapsto> Oid 1, ''email'' \<mapsto> Str ''c@x''],
          \<lparr>docs = [[''_id'' \<mapsto> Oid 0, ''email'' \<mapsto> Str ''a@x''],
                   [''_id'' \<mapsto> Oid 1, ''email'' \<mapsto> Str ''c@x'']], next_oid = 2\<rparr>)
   \<and> findOne [(''_id'', Oid 1)]
        \<lparr>docs = [[''_id'' \<mapsto> Oid 0, ''email'' \<mapsto> Str ''a@x''],
                 [''_id'' \<mapsto> Oid 1, ''email'' \<mapsto> Str ''c@x'']], next_oid = 2\<rparr>
       = Inr [''_id'' \<mapsto> Oid 1, ''email'' \<mapsto> Str ''c@x'']"
  (is "ids_ok ?s \<and> findOneAndUpdate ?f ?u ?s = (?r, ?s') \<and> _")
proof -
  have h1: "ids_ok ?s"
    by (simp add: ids_ok_def issued_def)
  have h2: "findOneAndUpdate ?f ?u ?s = (?r, ?s')"
    by (simp add: findOneAndUpdate_def model_findOneAndUpdate_def matches_def changes_id_def)
  have h3: "findOne ?f ?s = Inr [''_id'' \<mapsto> Oid 1, ''email'' \<mapsto> Str ''b@x'']"
    by (simp add: findOne_def model_findOne_def matches_def)
  have h4: "\<not> changes_id (update_fields ?u) [''_id'' \<mapsto> Oid 1, ''email'' \<mapsto> Str ''b@x'']"
    by (simp add: changes_id_def)
  from findOneAndUpdate_post_update[OF h1 h2] h3 h4 h1 h2 show ?thesis
    by auto
qed

text \<open>
  C3.  \<open>findOneAndDelete\<close> fails with \<open>NotFound\<close>, leaving the store as it was,
  when no document matches.  When \<open>d\<close> is the first match, it returns \<open>d\<close> as stored
  before the call, and \<open>findOne\<close> on the identifier of \<open>d\<close> in the resulting store
  fails with \<open>NotFound\<close>.
\<close>

theorem findOneAndDelete_pre_deletion:
  assumes "ids_ok s" and "findOneAndDelete f s = (r, s')"
  shows "((\<forall>d \<in> set (docs s). \<not> matches f d) \<longrightarrow> r = Inl NotFound \<and> s' = s)
       \<and> (\<forall>d. findOne f s = Inr d \<longrightarrow>
             r = Inr d \<and> (\<exists>i. d ''_id'' = Some i \<and> findOne [(''_id'', i)] s' = Inl NotFound))"
proof (rule conjI)
  show "(\<forall>d \<in> set (docs s). \<not> matches f d) \<longrightarrow> r = Inl NotFound \<and> s' = s"
  proof
    assume "\<forall>d \<in> set (docs s). \<not> matches f d"
    then have "List.find (matches f) (docs s) = None"
      by (rule find_no_match)
    with assms(2) show "r = Inl NotFound \<and> s' = s"
      by (auto simp: findOneAndDelete_eq model_findOne_def)
  qed
next
  show "\<forall>d. findOne f s = Inr d \<longrightarrow>
             r = Inr d \<and> (\<exists>i. d ''_id'' = Some i \<and> findOne [(''_id'', i)] s' = Inl NotFound)"
  proof (intro allI impI)
    fix d
    assume "findOne f s = Inr d"
    then have fd: "List.find (matches f) (docs s) = Some d"
      by (simp add: findOne_Inr)
    from find_Some_replace[OF fd] obtain i where
      i: "i < length (docs s)" "docs s ! i = d"
      and rem: "remove_first (matches f) (docs s) = take i (docs s) @ drop (Suc i) (docs s)"
      by blast
    from assms(2) fd rem have r: "r = Inr d"
      and s': "docs s' = take i (docs s) @ drop (Suc i) (docs s)"
      by (auto simp: findOneAndDelete_eq model_findOne_def)
    from i have "d \<in> set (docs s)"
      by auto
    from ids_ok_has_id[OF assms(1) this] obtain k where k: "d ''_id'' = Some (Oid k)"
      by blast
    from assms(1) have "distinct (map (\<lambda>d. d ''_id'') (docs s))"
      by (simp add: ids_ok_def)
    then have "List.find (matches [(''_id'', Oid k)]) (take i (docs s) @ drop (Suc i) (docs s)) = None"
      using i k by (intro find_id_after_remove) simp_all
    with s' have "findOne [(''_id'', Oid k)] s' = Inl NotFound"
      by (simp add: findOne_eq)
    with k r show "r = Inr d \<and> (\<exists>i. d ''_id'' = Some i \<and> findOne [(''_id'', i)] s' = Inl NotFound)"
      by blast
  qed
qed

theorem findOneAndDelete_pre_deletion_witness:
  "ids_ok \<lparr>docs = [[''_id'' \<mapsto> Oid 0, ''email'' \<mapsto> Str ''a@x''],
                    [''_id'' \<mapsto> Oid 1, ''email'' \<mapsto> Str ''b@x'']], next_oid = 2\<rparr>
   \<and> findOneAndDelete [(''email'', Str ''b@x'')]
        \<lparr>docs = [[''_id'' \<mapsto> Oid 0, ''email'' \<mapsto> Str ''a@x''],
                 [''_id'' \<mapsto> Oid 1, ''email'' \<mapsto> Str ''b@x'']], next_oid = 2\<rparr>
       = (Inr [''_id'' \<mapsto> Oid 1, ''email'' \<mapsto> Str ''b@x''],
          \<lparr>docs = [[''_id'' \<mapsto> Oid 0, ''email'' \<mapsto> Str ''a@x'']], next_oid = 2\<rparr>)
   \<and> findOne [(''_id'', Oid 1)]
        \<lparr>docs = [[''_id'' \<mapsto> Oid 0, ''email'' \<mapsto> Str ''a@x'']], next_oid = 2\<rparr>
       = Inl NotFound"
  (is "ids_ok ?s \<and> findOneAndDelete ?f ?s = (?r, ?s') \<and> _")
proof -
  have h1: "ids_ok ?s"
    by (simp add: ids_ok_def issued_def)
  have h2: "findOneAndDelete ?f ?s = (?r, ?s')"
    by (simp add: findOneAndDelete_def model_findOneAndDelete_def matches_def)
  have h3: "findOne ?f ?s = Inr [''_id'' \<mapsto> Oid 1, ''email'' \<mapsto> Str ''b@x'']"
    by (simp add: findOne_def model_findOne_def matches_def)
  from findOneAndDelete_pre_deletion[OF h1 h2] h3 h1 h2 show ?thesis
    by auto
qed

lemma findOneAndUpdate_frame:
  assumes "findOneAndUpdate f u s = (Inr d', s')"
  shows "\<exists>d i. findOne f s = Inr d \<and> i < length (docs s) \<and> docs s ! i = d
           \<and> docs s' = (docs s)[i := d'] \<and> next_oid s' = next_oid s
           \<and> d' = d ++ update_fields u \<and> d' ''_id'' = d ''_id''"
proof (cases "List.find (matches f) (docs s)")
  case None
  with assms show ?thesis
    by (simp add: findOneAndUpdate_eq model_findOne_def)
next
  case (Some d)
  with assms have nc: "\<not> changes_id (update_fields u) d"
    by (auto simp: findOneAndUpdate_eq model_findOne_def split: if_splits)
  from find_Some_replace[OF Some, of "d ++ update_fields u"] obtain i where
    i: "i < length (docs s)" "docs s ! i = d"
    and rep: "replace_first (matches f) (d ++ update_fields u) (docs s)
                = (docs s)[i := d ++ update_fields u]"
    by blast
  from assms Some nc rep have "d' = d ++ update_fields u" "docs s' = (docs s)[i := d']"
    "next_oid s' = next_oid s"
    by (auto simp: findOneAndUpdate_eq model_findOne_def)
  moreover from Some have "findOne f s = Inr d"
    by (simp add: findOne_Inr)
  moreover note i keeps_id[OF nc]
  ultimately show ?thesis
    by blast
qed

section \<open>Updates through the schema of users\<close>

lemma findOneAndUpdate_failure:
  "findOneAndUpdate f u s = (Inl e, s') \<Longrightarrow> s' = s"
  by (auto simp: findOneAndUpdate_eq split: option.splits if_splits)

lemma cast_paths_error: "cast_paths ps u = Inl e \<Longrightarrow> e = CastError"
proof (induction ps)
  case Nil
  then show ?case by simp
next
  case (Cons p ps)
  obtain k ty where p: "p = (k, ty)"
    by (cases p)
  have c: "cast ty v = Inl e \<Longrightarrow> e = CastError" for v
    by (cases ty; cases v) (auto split: option.splits)
  from Cons p c show ?case
    by (auto split: sum.splits option.splits)
qed

lemma cast_paths_dom: "cast_paths ps u = Inr m \<Longrightarrow> dom m = dom u \<inter> fst ` set ps"
proof (induction ps arbitrary: m)
  case Nil
  then show ?case by simp
next
  case (Cons p ps)
  obtain k ty where p: "p = (k, ty)"
    by (cases p)
  from Cons.prems p obtain m0 where m0: "cast_paths ps u = Inr m0"
    by (auto split: sum.splits)
  from Cons.IH[OF m0] have d: "dom m0 = dom u \<inter> fst ` set ps" .
  show ?case
  proof (cases "u k")
    case None
    with Cons.prems p m0 d show ?thesis
      by auto
  next
    case (Some v)
    with Cons.prems p m0 obtain v' where "m = m0(k \<mapsto> v')"
      by (auto split: sum.splits)
    then have "dom m = insert k (dom m0)"
      by simp
    also have "\<dots> = insert k (dom u \<inter> fst ` set ps)"
      by (simp only: d)
    also have "\<dots> = dom u \<inter> insert k (fst ` set ps)"
      using Some by blast
    finally show ?thesis
      using p by simp
  qed
qed

lemma cast_paths_promise:
  "(k, SString) \<in> set ps \<Longrightarrow> u k = Some (Promise p) \<Longrightarrow> cast_paths ps u = Inl CastError"
proof (induction ps)
  case Nil
  then show ?case by simp
next
  case (Cons q ps)
  obtain k' ty where q: "q = (k', ty)"
    by (cases q)
  show ?case
  proof (cases "cast_paths ps u")
    case (Inl e)
    with cast_paths_error[OF Inl] q show ?thesis
      by simp
  next
    case (Inr m)
    with Cons q have "k' = k" "ty = SString"
      by auto
    with Inr q Cons.prems(2) show ?thesis
      by simp
  qed
qed

lemma cast_filter_id:
  "cast_filter UserSchema [(''_id'', Str uid)] =
     (case ofHexString uid of None \<Rightarrow> Inl CastError | Some k \<Rightarrow> Inr [(''_id'', Oid k)])"
  by (simp add: UserSchema_def split: option.splits)

lemma UserRepository_findOneAndUpdate_id:
  "UserRepository_findOneAndUpdate [(''_id'', Str uid)] u s =
     (case ofHexString uid of
        None \<Rightarrow> (Inl CastError, s)
      | Some k \<Rightarrow>
          (case cast_update UserSchema u of
             Inl e \<Rightarrow> (Inl e, s)
           | Inr u' \<Rightarrow> findOneAndUpdate [(''_id'', Oid k)] u' s))"
  unfolding UserRepository_findOneAndUpdate_def cast_filter_id
  by (simp split: option.splits)

text \<open>
  An input with a truthy password never updates anything: the \<open>$set\<close> holds the
  promise that \<open>hashPassword\<close> returned, and the cast of the update to the schema
  fails.
\<close>

lemma update_with_password_is_rejected:
  assumes "truthy (updateUserInput ''password'')"
  shows "UsersService_update bcrypt_hash uid updateUserInput s = (Inl CastError, s)"
proof -
  let ?u = "updateUserInput ++
       [''password'' \<mapsto> Promise (hashPassword bcrypt_hash (updateUserInput ''password''))]"
  have "cast_paths UserSchema ?u = Inl CastError"
    by (rule cast_paths_promise[of "''password''"]) (simp_all add: UserSchema_def)
  then have "cast_update UserSchema (Dollar_set ?u) = Inl CastError"
    by (simp add: cast_update_def)
  with assms show ?thesis
    unfolding UsersService_update_def UserRepository_findOneAndUpdate_id
    by (simp split: option.splits)
qed

lemma UsersService_update_success:
  assumes "UsersService_update bcrypt_hash uid updateUserInput s = (Inr d', s')"
  shows "\<exists>k u. ofHexString uid = Some k \<and> cast_paths UserSchema updateUserInput = Inr u
           \<and> findOneAndUpdate [(''_id'', Oid k)] (Dollar_set u) s = (Inr d', s')"
proof -
  have nt: "\<not> truthy (updateUserInput ''password'')"
    using assms update_with_password_is_rejected[of updateUserInput bcrypt_hash uid s]
    by auto
  with assms have r: "UserRepository_findOneAndUpdate [(''_id'', Str uid)]
       (Dollar_set updateUserInput) s = (Inr d', s')"
    by (simp add: UsersService_update_def)
  then obtain k where k: "ofHexString uid = Some k"
    unfolding UserRepository_findOneAndUpdate_id by (auto split: option.splits)
  with r obtain u where "cast_paths UserSchema updateUserInput = Inr u"
    "findOneAndUpdate [(''_id'', Oid k)] (Dollar_set u) s = (Inr d', s')"
    unfolding UserRepository_findOneAndUpdate_id
    by (auto simp: cast_update_def split: sum.splits)
  with k show ?thesis
    by blast
qed

lemma UsersService_update_failure:
  assumes "UsersService_update bcrypt_hash uid updateUserInput s = (Inl e, s')"
  shows "s' = s"
proof -
  let ?u = "Dollar_set (updateUserInput ++
             (if truthy (updateUserInput ''password'')
              then [''password'' \<mapsto> Promise (hashPassword bcrypt_hash (updateUserInput ''password''))]
              else Map.empty))"
  from assms have r: "UserRepository_findOneAndUpdate [(''_id'', Str uid)] ?u s = (Inl e, s')"
    by (simp add: UsersService_update_def)
  show ?thesis
  proof (cases "cast_filter UserSchema [(''_id'', Str uid)]")
    case (Inl x)
    with r show ?thesis
      by (simp add: UserRepository_findOneAndUpdate_def)
  next
    case f: (Inr f)
    show ?thesis
    proof (cases "cast_update UserSchema ?u")
      case (Inl x)
      with r f show ?thesis
        by (simp add: UserRepository_findOneAndUpdate_def)
    next
      case (Inr u)
      with r f have "findOneAndUpdate f u s = (Inl e, s')"
        by (simp add: UserRepository_findOneAndUpdate_def)
      then show ?thesis
        by (rule findOneAndUpdate_failure)
    qed
  qed
qed

text \<open>
  C5.  An update that succeeds is a partial replacement.  For \<open>findOneAndUpdate\<close>: the
  first match \<open>d\<close> is replaced in place by the returned \<open>d'\<close> and nothing else in
  the collection changes; \<open>d'\<close> agrees with \<open>d\<close> on every field the update does not
  name; the identifier is the one \<open>d\<close> had; and the fields of \<open>d'\<close> are those of
  \<open>d\<close> and of the update, no other.  For \<open>UsersService.update\<close>, called with the
  identifier as a string of 24 hexadecimal digits: the document with that identifier is
  replaced in place by \<open>d'\<close>, which is \<open>d\<close> overridden by the fields of the input as
  cast to the schema; \<open>d'\<close> agrees with \<open>d\<close> on every field the input does not name,
  keeps the identifier, and has the fields of \<open>d\<close> and those fields of the input that
  the schema declares, no other.  A call of \<open>UsersService.update\<close> that fails leaves
  the store as it was.
\<close>

theorem update_is_partial_replacement:
  "(findOneAndUpdate f u s = (Inr d', s') \<longrightarrow>
      (\<exists>d i. findOne f s = Inr d \<and> i < length (docs s) \<and> docs s ! i = d
          \<and> docs s' = (docs s)[i := d']
          \<and> (\<forall>k. k \<notin> dom (update_fields u) \<longrightarrow> d' k = d k)
          \<and> d' ''_id'' = d ''_id''
          \<and> dom d' = dom d \<union> dom (update_fields u)))
   \<and> (UsersService_update bcrypt_hash uid updateUserInput s = (Inr d', s') \<longrightarrow>
      (\<exists>d i k c. ofHexString uid = Some k \<and> cast_paths UserSchema updateUserInput = Inr c
          \<and> findOne [(''_id'', Oid k)] s = Inr d \<and> i < length (docs s) \<and> docs s ! i = d
          \<and> docs s' = (docs s)[i := d'] \<and> d' = d ++ c
          \<and> (\<forall>k. k \<notin> dom updateUserInput \<longrightarrow> d' k = d k)
          \<and> d' ''_id'' = Some (Oid k)
          \<and> dom d' = dom d \<union> (dom updateUserInput \<inter> {''_id'', ''email'', ''password''})))
   \<and> (UsersService_update bcrypt_hash uid updateUserInput s = (Inl e, s') \<longrightarrow> s' = s)"
proof (intro conjI)
  show "findOneAndUpdate f u s = (Inr d', s') \<longrightarrow>
      (\<exists>d i. findOne f s = Inr d \<and> i < length (docs s) \<and> docs s ! i = d
          \<and> docs s' = (docs s)[i := d']
          \<and> (\<forall>k. k \<notin> dom (update_fields u) \<longrightarrow> d' k = d k)
          \<and> d' ''_id'' = d ''_id''
          \<and> dom d' = dom d \<union> dom (update_fields u))"
  proof
    assume "findOneAndUpdate f u s = (Inr d', s')"
    from findOneAndUpdate_frame[OF this] obtain d i where
      a: "findOne f s = Inr d" "i < length (docs s)" "docs s ! i = d"
         "docs s' = (docs s)[i := d']" "d' ''_id'' = d ''_id''"
      and d': "d' = d ++ update_fields u"
      by blast
    from d' have "\<forall>k. k \<notin> dom (update_fields u) \<longrightarrow> d' k = d k"
      by (auto simp: map_add_def split: option.splits)
    moreover from d' have "dom d' = dom d \<union> dom (update_fields u)"
      by auto
    ultimately show "\<exists>d i. findOne f s = Inr d \<and> i < length (docs s) \<and> docs s ! i = d
          \<and> docs s' = (docs s)[i := d']
          \<and> (\<forall>k. k \<notin> dom (update_fields u) \<longrightarrow> d' k = d k)
          \<and> d' ''_id'' = d ''_id''
          \<and> dom d' = dom d \<union> dom (update_fields u)"
      using a by blast
  qed
next
  show "UsersService_update bcrypt_hash uid updateUserInput s = (Inr d', s') \<longrightarrow>
      (\<exists>d i k c. ofHexString uid = Some k \<and> cast_paths UserSchema updateUserInput = Inr c
          \<and> findOne [(''_id'', Oid k)] s = Inr d \<and> i < length (docs s) \<and> docs s ! i = d
          \<and> docs s' = (docs s)[i := d'] \<and> d' = d ++ c
          \<and> (\<forall>k. k \<notin> dom updateUserInput \<longrightarrow> d' k = d k)
          \<and> d' ''_id'' = Some (Oid k)
          \<and> dom d' = dom d \<union> (dom updateUserInput \<inter> {''_id'', ''email'', ''password''}))"
  proof
    assume "UsersService_update bcrypt_hash uid updateUserInput s = (Inr d', s')"
    from UsersService_update_success[OF this] obtain k c where
      k: "ofHexString uid = Some k" and c: "cast_paths UserSchema updateUserInput = Inr c"
      and r: "findOneAndUpdate [(''_id'', Oid k)] (Dollar_set c) s = (Inr d', s')"
      by blast
    from findOneAndUpdate_frame[OF r] obtain d i where
      a: "findOne [(''_id'', Oid k)] s = Inr d" "i < length (docs s)" "docs s ! i = d"
         "docs s' = (docs s)[i := d']"
      and same: "d' ''_id'' = d ''_id''"
      and d': "d' = d ++ c"
      by auto
    from cast_paths_dom[OF c] have dom: "dom c = dom updateUserInput \<inter> {''_id'', ''email'', ''password''}"
      by (simp add: UserSchema_def)
    from a(1) have "matches [(''_id'', Oid k)] d"
      by (auto simp: findOne_Inr dest: find_Some_in)
    with same have id: "d' ''_id'' = Some (Oid k)"
      by simp
    from d' have "\<forall>k. k \<notin> dom c \<longrightarrow> d' k = d k"
      by (auto simp: map_add_def split: option.splits)
    with dom have frame: "\<forall>k. k \<notin> dom updateUserInput \<longrightarrow> d' k = d k"
      by simp
    from d' have "dom d' = dom d \<union> dom c"
      by (simp only: dom_map_add Un_commute)
    with dom have "dom d' = dom d \<union> (dom updateUserInput \<inter> {''_id'', ''email'', ''password''})"
      by simp
    with k c a d' id frame
    have "ofHexString uid = Some k \<and> cast_paths UserSchema updateUserInput = Inr c
          \<and> findOne [(''_id'', Oid k)] s = Inr d \<and> i < length (docs s) \<and> docs s ! i = d
          \<and> docs s' = (docs s)[i := d'] \<and> d' = d ++ c
          \<and> (\<forall>k. k \<notin> dom updateUserInput \<longrightarrow> d' k = d k)
          \<and> d' ''_id'' = Some (Oid k)
          \<and> dom d' = dom d \<union> (dom updateUserInput \<inter> {''_id'', ''email'', ''password''})"
      by simp
    then
    show "\<exists>d i k c. ofHexString uid = Some k \<and> cast_paths UserSchema updateUserInput = Inr c
          \<and> findOne [(''_id'', Oid k)] s = Inr d \<and> i < length (docs s) \<and> docs s ! i = d
          \<and> docs s' = (docs s)[i := d'] \<and> d' = d ++ c
          \<and> (\<forall>k. k \<notin> dom updateUserInput \<longrightarrow> d' k = d k)
          \<and> d' ''_id'' = Some (Oid k)
          \<and> dom d' = dom d \<union> (dom updateUserInput \<inter> {''_id'', ''email'', ''password''})"
      by (intro exI)
  qed
next
  show "UsersService_update bcrypt_hash uid updateUserInput s = (Inl e, s') \<longrightarrow> s' = s"
    by (auto dest: UsersService_update_failure)
qed

lemma ofHexString_zero: "ofHexString ''000000000000000000000000'' = Some 0"
  by code_simp

theorem update_is_partial_replacement_witness:
  "findOneAndUpdate [(''_id'', Oid 0)] (Dollar_set [''email'' \<mapsto> Str ''c@x''])
      \<lparr>docs = [[''_id'' \<mapsto> Oid 0, ''password'' \<mapsto> Str ''h'', ''email'' \<mapsto> Str ''a@x'']],
       next_oid = 1\<rparr>
     = (Inr [''_id'' \<mapsto> Oid 0, ''password'' \<mapsto> Str ''h'', ''email'' \<mapsto> Str ''c@x''],
        \<lparr>docs = [[''_id'' \<mapsto> Oid 0, ''password'' \<mapsto> Str ''h'', ''email'' \<mapsto> Str ''c@x'']],
         next_oid = 1\<rparr>)
   \<and> UsersService_update (\<lambda>p c. rev p) ''000000000000000000000000''
      [''email'' \<mapsto> Str ''c@x'', ''nickname'' \<mapsto> Str ''cx'']
      \<lparr>docs = [[''_id'' \<mapsto> Oid 0, ''password'' \<mapsto> Str ''h'', ''email'' \<mapsto> Str ''a@x'']],
       next_oid = 1\<rparr>
     = (Inr [''_id'' \<mapsto> Oid 0, ''password'' \<mapsto> Str ''h'', ''email'' \<mapsto> Str ''c@x''],
        \<lparr>docs = [[''_id'' \<mapsto> Oid 0, ''password'' \<mapsto> Str ''h'', ''email'' \<mapsto> Str ''c@x'']],
         next_oid = 1\<rparr>)
   \<and> UsersService_update (\<lambda>p c. rev p) ''000000000000000000000000''
      [''password'' \<mapsto> Str ''secret'']
      \<lparr>docs = [[''_id'' \<mapsto> Oid 0, ''password'' \<mapsto> Str ''h'', ''email'' \<mapsto> Str ''a@x'']],
       next_oid = 1\<rparr>
     = (Inl CastError,
        \<lparr>docs = [[''_id'' \<mapsto> Oid 0, ''password'' \<mapsto> Str ''h'', ''email'' \<mapsto> Str ''a@x'']],
         next_oid = 1\<rparr>)
   \<and> [''_id'' \<mapsto> Oid 0, ''password'' \<mapsto> Str ''h'', ''email'' \<mapsto> Str ''c@x''] ''_id''
       = Some (Oid 0)"
  (is "findOneAndUpdate ?f ?u ?s = (Inr ?d', ?s') \<and> UsersService_update ?h ?i ?inp ?s = _
       \<and> UsersService_update ?h ?i ?pw ?s = _ \<and> _")
proof -
  have h1: "findOneAndUpdate ?f ?u ?s = (Inr ?d', ?s')"
    by (simp add: findOneAndUpdate_def model_findOneAndUpdate_def matches_def changes_id_def)
  have c: "cast_update UserSchema (Dollar_set ?inp) = Inr (Dollar_set [''email'' \<mapsto> Str ''c@x''])"
    by (simp add: cast_update_def UserSchema_def)
  have h2: "UsersService_update ?h ?i ?inp ?s = (Inr ?d', ?s')"
    unfolding UsersService_update_def UserRepository_findOneAndUpdate_id
    by (simp add: truthy_def ofHexString_zero c
        findOneAndUpdate_def model_findOneAndUpdate_def matches_def changes_id_def)
  have h3: "UsersService_update ?h ?i ?pw ?s = (Inl CastError, ?s)"
    by (rule update_with_password_is_rejected) (simp add: truthy_def)
  from update_is_partial_replacement[of ?f ?u ?s ?d' ?s' ?h ?i ?inp CastError]
    update_is_partial_replacement[of ?f ?u ?s ?d' ?s ?h ?i ?pw CastError] h1 h2 h3
  show ?thesis
    by auto
qed

section \<open>Dates and the login cookie\<close>

lemma time_fields:
  fixes lt :: int
  shows "lt = (lt div 86400000) * 86400000 + ((lt div 3600000) mod 24) * 3600000
            + ((lt div 60000) mod 60) * 60000 + ((lt div 1000) mod 60) * 1000 + lt mod 1000"
proof -
  define a where "a = lt div 1000"
  define b where "b = a div 60"
  define c where "c = b div 60"
  have "lt div (1000 * 60) = lt div 1000 div 60"
    by (rule zdiv_zmult2_eq) simp
  then have b: "lt div 60000 = b"
    by (simp add: a_def b_def)
  have "lt div (60000 * 60) = lt div 60000 div 60"
    by (rule zdiv_zmult2_eq) simp
  with b have c: "lt div 3600000 = c"
    by (simp add: c_def)
  have "lt div (3600000 * 24) = lt div 3600000 div 24"
    by (rule zdiv_zmult2_eq) simp
  with c have d: "lt div 86400000 = c div 24"
    by simp
  have 1: "lt = 1000 * a + lt mod 1000"
    unfolding a_def by (rule mult_div_mod_eq[symmetric])
  have 2: "a = 60 * b + a mod 60"
    unfolding b_def by (rule mult_div_mod_eq[symmetric])
  have 3: "b = 60 * c + b mod 60"
    unfolding c_def by (rule mult_div_mod_eq[symmetric])
  have 4: "c = 24 * (c div 24) + c mod 24"
    by (rule mult_div_mod_eq[symmetric])
  have "lt = (c div 24) * 86400000 + (c mod 24) * 3600000 + (b mod 60) * 60000
             + (a mod 60) * 1000 + lt mod 1000"
    using 1 2 3 4 by linarith
  then show ?thesis
    unfolding b c d a_def[symmetric] .
qed

lemma shift_seconds:
  fixes lt :: int
  assumes "lt = D * 86400000 + H * 3600000 + M * 60000 + S * 1000 + ms"
  shows "D * 86400000 + (H * 3600000 + M * 60000 + (S + n) * 1000 + ms) = lt + 1000 * n"
  using assms by (simp add: distrib_right)

lemma rebuilt_local_time:
  "MakeDate (lt div 86400000)
     (MakeTime ((lt div 3600000) mod 24) ((lt div 60000) mod 60) ((lt div 1000) mod 60 + n)
        (lt mod 1000))
   = lt + 1000 * n"
  unfolding MakeDate_def MakeTime_def
  by (rule shift_seconds) (rule time_fields)

lemma setSeconds_getSeconds:
  "setSeconds z (getSeconds z t + n) t = UTC z (LocalTime z t + 1000 * n)"
  unfolding setSeconds_def getSeconds_def Let_def
  by (simp only: rebuilt_local_time)




lemma login_eq:
  assumes "configService ''JWT_EXPIRATION'' = Some n"
  shows "login sign configService z now user response =
     Inr (JObj [(''success'', JBool True),
                (''user'', JObj [(''_id'', JStr (toHexString (user_id user))),
                                 (''email'', JStr (email user))])],
          response @
            [\<lparr>cookie_name = ''Authentication'',
              cookie_value = sign now [(''_id'', toHexString (user_id user)), (''email'', email user)],
              httpOnly = True, expires = UTC z (LocalTime z now + 1000 * n)\<rparr>])"
  using assms
  by (simp add: login_def getOrThrow_def response_cookie_def setSeconds_getSeconds Let_def)


lemma toHexString_255: "toHexString 255 = ''0000000000000000000000ff''"
  by code_simp



section \<open>Expiry of the session token\<close>

text \<open>
  C7.  With the signer and the verifier of the specification, and \<open>JWT_EXPIRATION\<close>
  configured as \<open>n\<close> seconds for both: \<open>login\<close> at time \<open>now\<close> returns, and the
  cookie it sets holds a token \<open>tok\<close> that carries the identity fields, is issued at
  \<open>now\<close> and embeds the expiry \<open>now + n\<close> seconds; verifying \<open>tok\<close> at any time
  strictly after that fails with \<open>Expired\<close>, and at any time strictly before that
  returns the identity fields that were signed.  The verifier reads the expiry from the
  token.
\<close>

theorem token_expiry:
  assumes "configService ''JWT_EXPIRATION'' = Some n"
  shows "\<exists>body e tok.
           login (jwt_sign mac secret n) configService z now user response
             = Inr (body,
                    response @
                      [\<lparr>cookie_name = ''Authentication'', cookie_value = tok,
                        httpOnly = True, expires = e\<rparr>])
         \<and> payload tok = [(''_id'', toHexString (user_id user)), (''email'', email user)]
         \<and> issuedAt tok = now
         \<and> expiresAt tok = now + 1000 * n
         \<and> (\<forall>t. now + 1000 * n < t \<longrightarrow> jwt_verify mac secret t tok = Inl Expired)
         \<and> (\<forall>t. t < now + 1000 * n \<longrightarrow>
                jwt_verify mac secret t tok
                  = Inr [(''_id'', toHexString (user_id user)), (''email'', email user)])"
proof -
  let ?p = "[(''_id'', toHexString (user_id user)), (''email'', email user)]"
  let ?tok = "jwt_sign mac secret n now ?p"
  from assms login_eq[of configService n "jwt_sign mac secret n" z now user response]
  have "\<exists>body e. login (jwt_sign mac secret n) configService z now user response
             = Inr (body,
                    response @
                      [\<lparr>cookie_name = ''Authentication'', cookie_value = ?tok,
                        httpOnly = True, expires = e\<rparr>])"
    by blast
  moreover have "payload ?tok = ?p" "issuedAt ?tok = now" "expiresAt ?tok = now + 1000 * n"
    by (simp_all add: jwt_sign_def)
  moreover have "\<forall>t. now + 1000 * n < t \<longrightarrow> jwt_verify mac secret t ?tok = Inl Expired"
    by (simp add: jwt_sign_def jwt_verify_def)
  moreover have "\<forall>t. t < now + 1000 * n \<longrightarrow> jwt_verify mac secret t ?tok = Inr ?p"
    by (simp add: jwt_sign_def jwt_verify_def)
  ultimately show ?thesis
    by blast
qed

theorem token_expiry_witness:
  "login (jwt_sign plain_mac ''key'' 3600) [''JWT_EXPIRATION'' \<mapsto> 3600] utc_zone 1500
      \<lparr>user_id = 255, email = ''a@x'', password = ''h''\<rparr> []
   = Inr (JObj [(''success'', JBool True),
                (''user'', JObj [(''_id'', JStr ''0000000000000000000000ff''),
                                 (''email'', JStr ''a@x'')])],
          [\<lparr>cookie_name = ''Authentication'',
            cookie_value =
              \<lparr>payload = [(''_id'', ''0000000000000000000000ff''), (''email'', ''a@x'')],
               issuedAt = 1500, expiresAt = 3601500,
               signature = ''key0000000000000000000000ffa@x''\<rparr>,
            httpOnly = True, expires = 3601500\<rparr>])
   \<and> jwt_verify plain_mac ''key'' 3601501
        \<lparr>payload = [(''_id'', ''0000000000000000000000ff''), (''email'', ''a@x'')],
         issuedAt = 1500, expiresAt = 3601500,
         signature = ''key0000000000000000000000ffa@x''\<rparr>
       = Inl Expired
   \<and> jwt_verify plain_mac ''key'' 3601499
        \<lparr>payload = [(''_id'', ''0000000000000000000000ff''), (''email'', ''a@x'')],
         issuedAt = 1500, expiresAt = 3601500,
         signature = ''key0000000000000000000000ffa@x''\<rparr>
       = Inr [(''_id'', ''0000000000000000000000ff''), (''email'', ''a@x'')]"
  (is "login ?sg ?cfg utc_zone 1500 ?u [] = Inr (?b, [?c]) \<and> _ \<and> _")
proof -
  have h: "?cfg ''JWT_EXPIRATION'' = Some 3600"
    by simp
  have l: "login ?sg ?cfg utc_zone 1500 ?u [] = Inr (?b, [?c])"
    using h login_eq[of ?cfg 3600 ?sg utc_zone 1500 ?u "[]"]
    by (simp add: toHexString_255 jwt_sign_def plain_mac_def utc_zone_def UTC_def LocalTime_def)
  from token_expiry[of ?cfg 3600 plain_mac "''key''" utc_zone 1500 ?u "[]"] h
  obtain body e tok where
    r: "login ?sg ?cfg utc_zone 1500 ?u []
          = Inr (body, [] @ [\<lparr>cookie_name = ''Authentication'', cookie_value = tok,
                              httpOnly = True, expires = e\<rparr>])"
    and late: "\<forall>t. 1500 + 1000 * 3600 < t \<longrightarrow> jwt_verify plain_mac ''key'' t tok = Inl Expired"
    and early: "\<forall>t. t < 1500 + 1000 * 3600 \<longrightarrow>
        jwt_verify plain_mac ''key'' t tok
          = Inr [(''_id'', toHexString (user_id ?u)), (''email'', email ?u)]"
    by blast
  from r l have tok: "tok = cookie_value ?c"
    by simp
  from late have "jwt_verify plain_mac ''key'' 3601501 tok = Inl Expired"
    by simp
  moreover from early have "jwt_verify plain_mac ''key'' 3601499 tok
      = Inr [(''_id'', toHexString (user_id ?u)), (''email'', email ?u)]"
    by simp
  ultimately show ?thesis
    using l tok by (simp add: toHexString_255)
qed

section \<open>Logout\<close>

text \<open>
  C8.  \<open>logout\<close> at time \<open>now\<close> appends the cookie \<open>Authentication\<close> with the empty
  string as value, \<open>httpOnly\<close> set and \<open>expires = now\<close>, which is not later than the
  time of the call; handling the request changes the response only, and the document
  store is as it was.
\<close>

theorem logout_cookie:
  "logout now response =
     response @ [\<lparr>cookie_name = ''Authentication'', cookie_value = [], httpOnly = True,
                  expires = now\<rparr>]
   \<and> expires (last (logout now response)) \<le> now
   \<and> db (AuthController_logout now w) = db w
   \<and> res (AuthController_logout now w) = logout now (res w)"
  by (simp add: logout_def response_cookie_def AuthController_logout_def)

section \<open>Creating a user\<close>

text \<open>
  C9.  For an input whose password is the string \<open>pw\<close>, \<open>UsersService.create\<close> calls
  the repository's \<open>create\<close> with the input in which only \<open>password\<close> is replaced, by
  the bcrypt digest of \<open>pw\<close> at cost factor 10.  The entity returned and stored holds
  that digest as its password, agrees with the input on every other field (the
  identifier apart), and does not hold the plaintext unless the digest of \<open>pw\<close> is
  \<open>pw\<close> itself.
\<close>

theorem create_hashes_password:
  assumes "createUserInput ''password'' = Some (Str pw)"
  shows "UsersService_create bcrypt_hash createUserInput s =
           (Inr (fst (create (createUserInput(''password'' \<mapsto> Str (bcrypt_hash pw 10))) s)),
            snd (create (createUserInput(''password'' \<mapsto> Str (bcrypt_hash pw 10))) s))
       \<and> (\<exists>e s'. UsersService_create bcrypt_hash createUserInput s = (Inr e, s')
            \<and> e ''password'' = Some (Str (bcrypt_hash pw 10))
            \<and> docs s' = docs s @ [e]
            \<and> (\<forall>k. k \<noteq> ''password'' \<and> k \<noteq> ''_id'' \<longrightarrow> e k = createUserInput k)
            \<and> (bcrypt_hash pw 10 \<noteq> pw \<longrightarrow> e ''password'' \<noteq> Some (Str pw)))"
proof -
  let ?in = "createUserInput(''password'' \<mapsto> Str (bcrypt_hash pw 10))"
  let ?e = "?in(''_id'' \<mapsto> Oid (next_oid s))"
  from assms have u: "UsersService_create bcrypt_hash createUserInput s =
      (Inr (fst (create ?in s)), snd (create ?in s))"
    by (simp add: UsersService_create_def hashPassword_def split_beta)
  have c: "fst (create ?in s) = ?e" "docs (snd (create ?in s)) = docs s @ [?e]"
    by (simp_all add: create_eq)
  have "?e ''password'' = Some (Str (bcrypt_hash pw 10))"
    by simp
  moreover have "\<forall>k. k \<noteq> ''password'' \<and> k \<noteq> ''_id'' \<longrightarrow> ?e k = createUserInput k"
    by simp
  moreover have "bcrypt_hash pw 10 \<noteq> pw \<longrightarrow> ?e ''password'' \<noteq> Some (Str pw)"
    by simp
  ultimately have "\<exists>e s'. UsersService_create bcrypt_hash createUserInput s = (Inr e, s')
            \<and> e ''password'' = Some (Str (bcrypt_hash pw 10))
            \<and> docs s' = docs s @ [e]
            \<and> (\<forall>k. k \<noteq> ''password'' \<and> k \<noteq> ''_id'' \<longrightarrow> e k = createUserInput k)
            \<and> (bcrypt_hash pw 10 \<noteq> pw \<longrightarrow> e ''password'' \<noteq> Some (Str pw))"
    using u c by (intro exI[of _ ?e] exI[of _ "snd (create ?in s)"]) simp
  with u show ?thesis
    by blast
qed

theorem create_hashes_password_witness:
  "UsersService_create (\<lambda>p c. ''$2b$'' @ rev p) [''email'' \<mapsto> Str ''a@x'', ''password'' \<mapsto> Str ''secret'']
      empty_store
   = (Inr [''email'' \<mapsto> Str ''a@x'', ''password'' \<mapsto> Str ''$2b$terces'', ''_id'' \<mapsto> Oid 0],
      \<lparr>docs = [[''email'' \<mapsto> Str ''a@x'', ''password'' \<mapsto> Str ''$2b$terces'', ''_id'' \<mapsto> Oid 0]],
       next_oid = 1\<rparr>)"
proof -
  have h: "[''email'' \<mapsto> Str ''a@x'', ''password'' \<mapsto> Str ''secret''] ''password'' = Some (Str ''secret'')"
    by simp
  from create_hashes_password[of "[''email'' \<mapsto> Str ''a@x'', ''password'' \<mapsto> Str ''secret'']"
      "''secret''" "\<lambda>p c. ''$2b$'' @ rev p" empty_store] h
  show ?thesis
    by (simp add: create_eq empty_store_def)
qed

section \<open>The login response\<close>

text \<open>
  C10.  The body that \<open>login\<close> returns is the object
  \<open>{success: true, user: {_id, email}}\<close>; its field names are \<open>success\<close>,
  \<open>user\<close>, \<open>_id\<close> and \<open>email\<close>, so there is no password field.  Two users with
  the same identifier and email, whatever their stored password hashes, get the same
  body and the same cookies from \<open>login\<close> at the same time.
\<close>

theorem login_body_without_password:
  assumes "configService ''JWT_EXPIRATION'' = Some n"
  shows "(\<exists>response'. login sign configService z now user response =
            Inr (JObj [(''success'', JBool True),
                       (''user'', JObj [(''_id'', JStr (toHexString (user_id user))),
                                        (''email'', JStr (email user))])],
                 response'))
       \<and> json_fields (JObj [(''success'', JBool True),
                       (''user'', JObj [(''_id'', JStr (toHexString (user_id user))),
                                        (''email'', JStr (email user))])])
           = [''success'', ''user'', ''_id'', ''email'']
       \<and> (user_id user = user_id user' \<and> email user = email user' \<longrightarrow>
            login sign configService z now user response
              = login sign configService z now user' response)"
proof -
  have "\<exists>response'. login sign configService z now user response =
            Inr (JObj [(''success'', JBool True),
                       (''user'', JObj [(''_id'', JStr (toHexString (user_id user))),
                                        (''email'', JStr (email user))])],
                 response')"
    using assms login_eq[of configService n sign z now user response] by blast
  moreover have "user_id user = user_id user' \<and> email user = email user' \<longrightarrow>
            login sign configService z now user response
              = login sign configService z now user' response"
    by (simp add: login_def Let_def split: sum.splits)
  ultimately show ?thesis
    by simp
qed

theorem login_body_without_password_witness:
  "login plain_sign [''JWT_EXPIRATION'' \<mapsto> 3600] utc_zone 1500
      \<lparr>user_id = 255, email = ''a@x'', password = ''hash one''\<rparr> []
   = login plain_sign [''JWT_EXPIRATION'' \<mapsto> 3600] utc_zone 1500
      \<lparr>user_id = 255, email = ''a@x'', password = ''hash two''\<rparr> []"
proof -
  have h: "[''JWT_EXPIRATION'' \<mapsto> (3600::int)] ''JWT_EXPIRATION'' = Some 3600"
    by simp
  from login_body_without_password[of "[''JWT_EXPIRATION'' \<mapsto> 3600]" 3600
      plain_sign utc_zone 1500
      "\<lparr>user_id = 255, email = ''a@x'', password = ''hash one''\<rparr>" "[]"
      "\<lparr>user_id = 255, email = ''a@x'', password = ''hash two''\<rparr>"] h
  show ?thesis
    by simp
qed

end
